theory Spec2Isabelle
  imports Complex_Main
begin

unbundle bit_operations_syntax

section \<open>Quadrature encoder firmware (rp2040-encoder/code.py)\<close>

text \<open>
  A shallow embedding of \<^verbatim>\<open>code.py\<close>: the module's global variables are the fields of
  one record, every function that assigns to them takes the record and returns it
  updated, every Python exception is a value, and one pass through the body of
  \<^verbatim>\<open>while True:\<close> is the function \<open>loop_body\<close>.

  What the program reads from the outside world during one pass (the two pins, the
  monotonic clock, the serial port) is the record \<open>env\<close>. Library code that is not part of
  the repository is kept out of the model: \<^verbatim>\<open>json.loads\<close> is the parameter \<open>loads\<close>
  (\<open>None\<close> when it raises \<^verbatim>\<open>ValueError\<close>), and the result of \<^verbatim>\<open>json.dumps\<close> is kept as the
  message it serialises. Values of \<^verbatim>\<open>time.monotonic()\<close> are real numbers here, so the
  rounding of floating-point subtraction is not modelled.
\<close>

subsection \<open>Python values\<close>

text \<open>The values \<^verbatim>\<open>json.loads\<close> can return. A dict is an association list read with
  \<open>map_of\<close>.\<close>

datatype pyval =
    PNone
  | PBool bool
  | PInt int
  | PFloat real
  | PStr string
  | PList "pyval list"
  | PDict "(string \<times> pyval) list"

datatype exn = TypeError | AttributeError | ValueError | IndexError | UnicodeError | OSError

text \<open>\<^verbatim>\<open>d.get(key, default)\<close> on a dict.\<close>

definition dict_get :: "(string \<times> pyval) list \<Rightarrow> string \<Rightarrow> pyval \<Rightarrow> pyval" where
  "dict_get kv k dflt = (case map_of kv k of None \<Rightarrow> dflt | Some v \<Rightarrow> v)"

text \<open>\<^verbatim>\<open>position += delta\<close> with an integer \<open>delta\<close>: defined on numbers (a bool counts as
  0 or 1), \<^verbatim>\<open>TypeError\<close> on everything else.\<close>

fun py_add :: "pyval \<Rightarrow> int \<Rightarrow> exn + pyval" where
  "py_add (PInt n) d = Inr (PInt (n + d))"
| "py_add (PBool b) d = Inr (PInt (of_bool b + d))"
| "py_add (PFloat x) d = Inr (PFloat (x + of_int d))"
| "py_add v d = Inl TypeError"

text \<open>Truth value of an object, as the pin driver takes it when \<^verbatim>\<open>led.value\<close> is
  assigned.\<close>

fun truthy :: "pyval \<Rightarrow> bool" where
  "truthy PNone = False"
| "truthy (PBool b) = b"
| "truthy (PInt n) = (n \<noteq> 0)"
| "truthy (PFloat x) = (x \<noteq> 0)"
| "truthy (PStr s) = (s \<noteq> [])"
| "truthy (PList xs) = (xs \<noteq> [])"
| "truthy (PDict kv) = (kv \<noteq> [])"

text \<open>\<^verbatim>\<open>xs[i]\<close>: a negative index counts from the end, an index out of range raises.\<close>

definition py_getitem :: "'a list \<Rightarrow> int \<Rightarrow> exn + 'a" where
  "py_getitem xs i =
     (if 0 \<le> i \<and> i < int (length xs) then Inr (xs ! nat i)
      else if - int (length xs) \<le> i \<and> i < 0 then Inr (xs ! nat (i + int (length xs)))
      else Inl IndexError)"

text \<open>\<^verbatim>\<open>str.strip()\<close> without argument removes the characters of
  \<^verbatim>\<open>" \t\n\r\v\f"\<close> (codes 32 and 9 to 13) from both ends.\<close>

definition isspace :: "char \<Rightarrow> bool" where
  "isspace c = (of_char c = (32::nat) \<or> (9 \<le> (of_char c :: nat) \<and> (of_char c :: nat) \<le> 13))"

definition strip :: "string \<Rightarrow> string" where
  "strip s = rev (dropWhile isspace (rev (dropWhile isspace s)))"

subsection \<open>Module state and environment\<close>

text \<open>Messages written to \<^verbatim>\<open>usb_cdc.data\<close>:
  \<^verbatim>\<open>{"type": "encoder", "delta": d, "position": p}\<close> and
  \<^verbatim>\<open>{"type": "pong", "position": p}\<close>.\<close>

datatype msg = Encoder int pyval | Pong pyval

text \<open>A call of \<^verbatim>\<open>usb_cdc.data.write\<close> with the message it was given: it returned, or it
  raised and the message is lost.\<close>

datatype tx_event = Sent msg | Failed msg

text \<open>The globals of the module (lines 31 to 37 and 63), the LED pin, and the
  write calls made on the serial port so far, oldest first.\<close>

record state =
  position :: pyval
  last_state :: int
  accumulated_delta :: int
  last_send_time :: real
  led :: bool
  tx :: "tx_event list"

text \<open>What \<^verbatim>\<open>usb_cdc.data.readline().decode()\<close> finds when \<^verbatim>\<open>in_waiting > 0\<close>: bytes
  that do not decode (the call raises) or a text line.\<close>

datatype inbound = NoData | Undecodable | Text string

text \<open>The outside world during one pass of the main loop: the two pin levels, the
  clock read at line 142, whether \<^verbatim>\<open>usb_cdc.data\<close> exists, whether a write of the
  scheduled report or of a command reply raises, and what is waiting on the port.\<close>

record env =
  pin_a :: bool
  pin_b :: bool
  now :: real
  usb_data :: bool
  report_write_fails :: bool
  reply_write_fails :: bool
  rx :: inbound

text \<open>A call either returns or raises; the globals survive in both cases.\<close>

datatype result = Ok state | Raise exn state

definition globals :: "result \<Rightarrow> state" where
  "globals r = (case r of Ok st \<Rightarrow> st | Raise x st \<Rightarrow> st)"

definition SEND_INTERVAL :: real where
  "SEND_INTERVAL = 5 / 100"

definition ENCODER_TABLE :: "int list" where
  "ENCODER_TABLE = [0, 1, -1, 0,  -1, 0, 0, 1,  1, 0, 0, -1,  0, -1, 1, 0]"

text \<open>\<^verbatim>\<open>(a << 1) | b\<close> on two pin levels (lines 63 and 124).\<close>

definition pin_state :: "bool \<Rightarrow> bool \<Rightarrow> int" where
  "pin_state a b = (push_bit 1 (of_bool a) OR of_bool b)"

text \<open>The module's initialisation: position 0, the first pin sample as
  \<open>last_state\<close>, nothing accumulated, the clock read once, the LED off after the
  start-up flashes.\<close>

definition initial :: "bool \<Rightarrow> bool \<Rightarrow> real \<Rightarrow> state" where
  "initial a0 b0 t0 =
     \<lparr>position = PInt 0, last_state = pin_state a0 b0, accumulated_delta = 0,
      last_send_time = t0, led = False, tx = []\<rparr>"

subsection \<open>Functions of the module\<close>

text \<open>\<^verbatim>\<open>usb_cdc.data.write(...)\<close>: the message reaches the port, or the call raises.\<close>

definition usb_write :: "bool \<Rightarrow> msg \<Rightarrow> state \<Rightarrow> result" where
  "usb_write fails m st =
     (if fails then Raise OSError (st\<lparr>tx := tx st @ [Failed m]\<rparr>)
      else Ok (st\<lparr>tx := tx st @ [Sent m]\<rparr>))"

text \<open>Lines 65 to 72. The \<^verbatim>\<open>except Exception: pass\<close> turns a raising write into a
  normal return.\<close>

definition send_encoder_data :: "bool \<Rightarrow> bool \<Rightarrow> int \<Rightarrow> pyval \<Rightarrow> state \<Rightarrow> result" where
  "send_encoder_data port fails delta pos st =
     (if port then
        (case usb_write fails (Encoder delta pos) st of
           Ok st' \<Rightarrow> Ok st'
         | Raise e st' \<Rightarrow> Ok st')
      else Ok st)"

text \<open>Lines 85 to 108. \<^verbatim>\<open>cmd.get\<close> raises \<^verbatim>\<open>AttributeError\<close> when \<open>cmd\<close> is not a
  dict. The \<^verbatim>\<open>time.sleep(0.1)\<close> between switching the LED on and off has no effect on
  the globals.\<close>

definition handle_command :: "env \<Rightarrow> pyval \<Rightarrow> state \<Rightarrow> result" where
  "handle_command e cmd st =
     (case cmd of
        PDict kv \<Rightarrow>
          (let cmd_type = dict_get kv ''type'' (PStr '''') in
           if cmd_type = PStr ''reset'' then
             (let st1 = st\<lparr>position := dict_get kv ''position'' (PInt 0)\<rparr> in
              case send_encoder_data (usb_data e) (reply_write_fails e) 0 (position st1) st1 of
                Raise x st2 \<Rightarrow> Raise x st2
              | Ok st2 \<Rightarrow> Ok (st2\<lparr>led := False\<rparr>))
           else if cmd_type = PStr ''ping'' then
             (if usb_data e then usb_write (reply_write_fails e) (Pong (position st)) st
              else Ok st)
           else if cmd_type = PStr ''led'' then
             Ok (st\<lparr>led := truthy (dict_get kv ''on'' (PBool False))\<rparr>)
           else Ok st)
      | _ \<Rightarrow> Raise AttributeError st)"

text \<open>Lines 78 to 81, the body of the \<^verbatim>\<open>try\<close> in \<open>check_for_commands\<close>.\<close>

definition read_command :: "(string \<Rightarrow> pyval option) \<Rightarrow> env \<Rightarrow> state \<Rightarrow> result" where
  "read_command loads e st =
     (case rx e of
        NoData \<Rightarrow> Ok st
      | Undecodable \<Rightarrow> Raise UnicodeError st
      | Text raw \<Rightarrow>
          (let line = strip raw in
           if line \<noteq> [] then
             (case loads line of
                None \<Rightarrow> Raise ValueError st
              | Some cmd \<Rightarrow> handle_command e cmd st)
           else Ok st))"

text \<open>Lines 74 to 83. Whatever the body raises is dropped by
  \<^verbatim>\<open>except Exception: pass\<close>; assignments made before the exception stay.\<close>

definition check_for_commands :: "(string \<Rightarrow> pyval option) \<Rightarrow> env \<Rightarrow> state \<Rightarrow> result" where
  "check_for_commands loads e st =
     (if usb_data e \<and> rx e \<noteq> NoData then
        (case read_command loads e st of
           Ok st' \<Rightarrow> Ok st'
         | Raise x st' \<Rightarrow> Ok st')
      else Ok st)"

text \<open>Lines 122 to 139 of the main loop: sample the pins, look the transition up, and
  add a non-zero delta to \<open>position\<close> and \<open>accumulated_delta\<close>. Nothing here is inside a
  \<^verbatim>\<open>try\<close>.\<close>

definition poll_encoder :: "env \<Rightarrow> state \<Rightarrow> result" where
  "poll_encoder e st =
     (let current_state = pin_state (pin_a e) (pin_b e) in
      if current_state \<noteq> last_state st then
        (let index = (push_bit 2 (last_state st) OR current_state) in
         case py_getitem ENCODER_TABLE index of
           Inl x \<Rightarrow> Raise x st
         | Inr delta \<Rightarrow>
             (if delta \<noteq> 0 then
                (case py_add (position st) delta of
                   Inl x \<Rightarrow> Raise x st
                 | Inr p \<Rightarrow>
                     Ok (st\<lparr>position := p,
                            accumulated_delta := accumulated_delta st + delta,
                            led := True,
                            last_state := current_state\<rparr>))
              else Ok (st\<lparr>last_state := current_state\<rparr>)))
      else Ok (st\<lparr>led := False\<rparr>))"

text \<open>Lines 142 to 146 of the main loop: the periodic report.\<close>

definition send_accumulated :: "env \<Rightarrow> state \<Rightarrow> result" where
  "send_accumulated e st =
     (if accumulated_delta st \<noteq> 0 \<and> now e - last_send_time st \<ge> SEND_INTERVAL then
        (case send_encoder_data (usb_data e) (report_write_fails e)
                (accumulated_delta st) (position st) st of
           Raise x st' \<Rightarrow> Raise x st'
         | Ok st' \<Rightarrow> Ok (st'\<lparr>accumulated_delta := 0, last_send_time := now e\<rparr>))
      else Ok st)"

text \<open>Sequencing two statements: the second runs when the first returned.\<close>

definition and_then :: "result \<Rightarrow> (state \<Rightarrow> result) \<Rightarrow> result" where
  "and_then r f = (case r of Ok st \<Rightarrow> f st | Raise x st \<Rightarrow> Raise x st)"

text \<open>One pass through the body of \<^verbatim>\<open>while True:\<close> (lines 120 to 149).\<close>

definition loop_body :: "(string \<Rightarrow> pyval option) \<Rightarrow> env \<Rightarrow> state \<Rightarrow> result" where
  "loop_body loads e st =
     and_then (and_then (poll_encoder e st) (send_accumulated e)) (check_for_commands loads e)"

text \<open>The main loop on a finite sequence of environments, one for each pass. An
  exception that leaves the loop body ends the program.\<close>

fun main_loop :: "(string \<Rightarrow> pyval option) \<Rightarrow> env list \<Rightarrow> state \<Rightarrow> result" where
  "main_loop loads [] st = Ok st"
| "main_loop loads (e # es) st =
     (case loop_body loads e st of
        Ok st' \<Rightarrow> main_loop loads es st'
      | Raise x st' \<Rightarrow> Raise x st')"

text \<open>The states the program can be in at the top of the loop.\<close>

inductive reachable :: "(string \<Rightarrow> pyval option) \<Rightarrow> state \<Rightarrow> bool"
  for loads :: "string \<Rightarrow> pyval option" where
  reachable_initial: "reachable loads (initial a0 b0 t0)"
| reachable_step: "reachable loads st \<Longrightarrow> loop_body loads e st = Ok st' \<Longrightarrow> reachable loads st'"

text \<open>The deltas the loop decodes (lines 124 to 129) from the pin samples of successive
  passes, when \<open>last_state\<close> is \<open>prev\<close> before the first of them; 0 for a pass whose
  sample equals the previous one.\<close>

fun decoded :: "int \<Rightarrow> env list \<Rightarrow> int list" where
  "decoded prev [] = []"
| "decoded prev (e # es) =
     (let current_state = pin_state (pin_a e) (pin_b e) in
      (if current_state \<noteq> prev then
         (case py_getitem ENCODER_TABLE (push_bit 2 prev OR current_state) of
            Inr delta \<Rightarrow> delta
          | Inl x \<Rightarrow> 0)
       else 0) # decoded current_state es)"

text \<open>A stand-in for \<^verbatim>\<open>json.loads\<close> in the concrete runs below: its value on the lines
  those runs receive, \<^verbatim>\<open>ValueError\<close> on every other line.\<close>

definition loads_sample :: "string \<Rightarrow> pyval option" where
  \<open>loads_sample s =
     (if s = ''{"type":"ping"}'' then Some (PDict [(''type'', PStr ''ping'')])
      else if s = ''{"type":"reset","position":5}'' then
        Some (PDict [(''type'', PStr ''reset''), (''position'', PInt 5)])
      else if s = ''{"type":"reset","position":"x"}'' then
        Some (PDict [(''type'', PStr ''reset''), (''position'', PStr ''x'')])
      else if s = ''{"type":"led","on":true}'' then
        Some (PDict [(''type'', PStr ''led''), (''on'', PBool True)])
      else if s = ''{"type":"unknown"}'' then Some (PDict [(''type'', PStr ''unknown'')])
      else if s = ''[1]'' then Some (PList [PInt 1])
      else None)\<close>

text \<open>An environment in which nothing happens: both pins low, a working port with
  nothing waiting.\<close>

definition quiet :: "real \<Rightarrow> env" where
  "quiet t = \<lparr>pin_a = False, pin_b = False, now = t, usb_data = True,
              report_write_fails = False, reply_write_fails = False, rx = NoData\<rparr>"

section \<open>Basic facts\<close>

lemma pin_state_simps:
  "pin_state False False = 0" "pin_state False True = 1"
  "pin_state True False = 2" "pin_state True True = 3"
  by (simp_all add: pin_state_def)

lemma pin_state_cases: "pin_state a b \<in> {0, 1, 2, 3}"
  by (cases a; cases b) (simp_all add: pin_state_simps)

lemma send_encoder_data_eq:
  "send_encoder_data port fails d p st =
     Ok (if port then st\<lparr>tx := tx st @ [if fails then Failed (Encoder d p) else Sent (Encoder d p)]\<rparr>
         else st)"
  by (simp add: send_encoder_data_def usb_write_def)

lemma handle_command_frame:
  "last_send_time (globals (handle_command e cmd st)) = last_send_time st"
  "accumulated_delta (globals (handle_command e cmd st)) = accumulated_delta st"
  "last_state (globals (handle_command e cmd st)) = last_state st"
  by (cases cmd; simp add: handle_command_def globals_def send_encoder_data_eq usb_write_def Let_def)+

lemma read_command_frame:
  "last_send_time (globals (read_command loads e st)) = last_send_time st"
  "accumulated_delta (globals (read_command loads e st)) = accumulated_delta st"
  "last_state (globals (read_command loads e st)) = last_state st"
  by (auto simp add: read_command_def handle_command_frame Let_def globals_def[of "Ok st"] globals_def[of "Raise x st" for x]
      split: inbound.splits option.splits)

lemma check_for_commands_Ok:
  "check_for_commands loads e st = Ok (globals (check_for_commands loads e st))"
  by (simp add: check_for_commands_def globals_def split: result.splits)

lemma check_for_commands_globals:
  "globals (check_for_commands loads e st) =
     (if usb_data e \<and> rx e \<noteq> NoData then globals (read_command loads e st) else st)"
  by (simp add: check_for_commands_def globals_def split: result.splits)

lemma check_for_commands_frame:
  "last_send_time (globals (check_for_commands loads e st)) = last_send_time st"
  "accumulated_delta (globals (check_for_commands loads e st)) = accumulated_delta st"
  "last_state (globals (check_for_commands loads e st)) = last_state st"
  by (simp_all add: check_for_commands_globals read_command_frame)

lemma poll_encoder_last_state:
  "poll_encoder e st = Ok st' \<Longrightarrow> last_state st' = pin_state (pin_a e) (pin_b e)"
  by (auto simp add: poll_encoder_def Let_def split: if_splits sum.splits)

lemma poll_encoder_last_send_time:
  "poll_encoder e st = Ok st' \<Longrightarrow> last_send_time st' = last_send_time st"
  by (auto simp add: poll_encoder_def Let_def split: if_splits sum.splits)

lemma send_accumulated_Ok:
  "send_accumulated e st = Ok (globals (send_accumulated e st))"
  by (simp add: send_accumulated_def send_encoder_data_eq globals_def)

lemma send_accumulated_last_state:
  "last_state (globals (send_accumulated e st)) = last_state st"
  by (simp add: send_accumulated_def send_encoder_data_eq globals_def)

lemma loop_body_Ok_iff:
  "loop_body loads e st = Ok st' \<longleftrightarrow>
     (\<exists>sp. poll_encoder e st = Ok sp \<and>
           st' = globals (check_for_commands loads e (globals (send_accumulated e sp))))"
proof (cases "poll_encoder e st")
  case (Ok sp)
  have "loop_body loads e st = check_for_commands loads e (globals (send_accumulated e sp))"
    by (cases "send_accumulated e sp")
       (use send_accumulated_Ok [of e sp] in \<open>simp_all add: loop_body_def and_then_def Ok globals_def\<close>)
  then show ?thesis
    using check_for_commands_Ok [of loads e "globals (send_accumulated e sp)"] Ok by auto
next
  case (Raise x s)
  then show ?thesis by (simp add: loop_body_def and_then_def)
qed

lemma loop_body_last_state:
  assumes "loop_body loads e st = Ok st'"
  shows "last_state st' = pin_state (pin_a e) (pin_b e)"
  using assms
  by (auto simp add: loop_body_Ok_iff check_for_commands_frame send_accumulated_last_state
      poll_encoder_last_state)

lemma reachable_last_state: "reachable loads st \<Longrightarrow> last_state st \<in> {0, 1, 2, 3}"
proof (induction rule: reachable.induct)
  case (reachable_initial a0 b0 t0)
  show ?case using pin_state_cases [of a0 b0] by (simp add: initial_def)
next
  case (reachable_step st e st')
  show ?case using loop_body_last_state [OF reachable_step.hyps(2)] pin_state_cases [of "pin_a e" "pin_b e"]
    by simp
qed

section \<open>The decoder\<close>

text \<open>
  C1. With \<open>last_state\<close> any of the four 2-bit states and any pin sample, the table
  lookup at index \<open>(last_state << 2) | current_state\<close> returns the entry of the table
  0, +1, -1, 0, -1, 0, 0, +1, +1, 0, 0, -1, 0, -1, +1, 0 at that index, and the pass adds
  exactly that value to \<open>accumulated_delta\<close> and to an integer \<open>position\<close>. When the
  sample equals \<open>last_state\<close> (indices 0, 5, 10, 15) nothing is added and \<open>last_state\<close>
  keeps its value.
\<close>

theorem poll_encoder_table:
  assumes "last_state st \<in> {0, 1, 2, 3}" and "position st = PInt p"
  shows "py_getitem ENCODER_TABLE (push_bit 2 (last_state st) OR pin_state (pin_a e) (pin_b e)) =
           Inr ([0, 1, -1, 0, -1, 0, 0, 1, 1, 0, 0, -1, 0, -1, 1, 0]
                  ! nat (push_bit 2 (last_state st) OR pin_state (pin_a e) (pin_b e)))
         \<and> (\<exists>st'. poll_encoder e st = Ok st'
           \<and> accumulated_delta st' - accumulated_delta st =
               [0, 1, -1, 0, -1, 0, 0, 1, 1, 0, 0, -1, 0, -1, 1, 0]
                 ! nat (push_bit 2 (last_state st) OR pin_state (pin_a e) (pin_b e))
           \<and> position st' = PInt (p + (accumulated_delta st' - accumulated_delta st))
           \<and> last_state st' = pin_state (pin_a e) (pin_b e)
           \<and> (pin_state (pin_a e) (pin_b e) = last_state st \<longrightarrow>
                accumulated_delta st' = accumulated_delta st \<and> last_state st' = last_state st
                \<and> position st' = position st))"
  using assms
  by (cases "pin_a e"; cases "pin_b e")
     (auto simp add: poll_encoder_def pin_state_simps ENCODER_TABLE_def py_getitem_def)

theorem poll_encoder_table_witness:
  "last_state (initial False True 0) \<in> {0, 1, 2, 3} \<and> position (initial False True 0) = PInt 0
   \<and> py_getitem ENCODER_TABLE 4 = Inr (- 1)
   \<and> (\<exists>st'. poll_encoder (quiet 0) (initial False True 0) = Ok st'
        \<and> accumulated_delta st' = - 1 \<and> position st' = PInt (- 1) \<and> last_state st' = 0)"
  using poll_encoder_table [of "initial False True 0" 0 "quiet 0"]
  by (auto simp add: initial_def quiet_def pin_state_simps)

text \<open>
  C9. In every state the program can reach at the top of the loop, and for every pin
  sample, the index \<open>(last_state << 2) | current_state\<close> is at least 0 and less than 16,
  the length of the table, so the lookup returns an entry and does not raise.
\<close>

theorem index_in_bounds:
  assumes "reachable loads st"
  shows "0 \<le> push_bit 2 (last_state st) OR pin_state a b
       \<and> push_bit 2 (last_state st) OR pin_state a b < 16
       \<and> int (length ENCODER_TABLE) = 16
       \<and> py_getitem ENCODER_TABLE (push_bit 2 (last_state st) OR pin_state a b) =
           Inr (ENCODER_TABLE ! nat (push_bit 2 (last_state st) OR pin_state a b))"
  using reachable_last_state [OF assms]
  by (cases a; cases b) (auto simp add: pin_state_simps py_getitem_def ENCODER_TABLE_def)

theorem index_in_bounds_witness:
  "reachable loads_sample (initial True False 0)
   \<and> push_bit 2 (last_state (initial True False 0)) OR pin_state True True = 11
   \<and> py_getitem ENCODER_TABLE 11 = Inr (- 1)"
proof -
  have r: "reachable loads_sample (initial True False 0)"
    by (rule reachable_initial)
  show ?thesis
    using r index_in_bounds [OF r, of True True]
    by (simp add: initial_def pin_state_simps ENCODER_TABLE_def)
qed

section \<open>The accumulator and the reset command\<close>

text \<open>
  C2, as the code has it. Handling a command whose type is \<open>reset\<close> returns normally with
  \<open>position\<close> set to the command's \<open>position\<close> field (0 when the field is absent) and
  leaves \<open>accumulated_delta\<close> as it was: the function assigns to \<open>position\<close> only.
\<close>

theorem reset_keeps_pending:
  assumes "dict_get kv ''type'' (PStr '''') = PStr ''reset''"
  shows "\<exists>st'. handle_command e (PDict kv) st = Ok st'
           \<and> position st' = dict_get kv ''position'' (PInt 0)
           \<and> accumulated_delta st' = accumulated_delta st"
  using assms by (simp add: handle_command_def send_encoder_data_eq Let_def)

theorem reset_keeps_pending_witness:
  "dict_get [(''type'', PStr ''reset''), (''position'', PInt 42)] ''type'' (PStr '''') = PStr ''reset''
   \<and> (\<exists>st'. handle_command (quiet 0) (PDict [(''type'', PStr ''reset''), (''position'', PInt 42)])
               ((initial False False 0)\<lparr>accumulated_delta := 7\<rparr>) = Ok st'
        \<and> position st' = PInt 42 \<and> accumulated_delta st' = 7)"
  using reset_keeps_pending [of "[(''type'', PStr ''reset''), (''position'', PInt 42)]" "quiet 0"
      "(initial False False 0)\<lparr>accumulated_delta := 7\<rparr>"]
  by (simp add: dict_get_def)

text \<open>
  C2, as the claim states it, fails. Three clockwise steps and then the line
  \<^verbatim>\<open>{"type":"reset","position":5}\<close>, all before the first report is due: the reset is
  answered, the position is 5, and the three steps are still pending.
\<close>

theorem reset_clears_pending_counterexample:
  \<open>main_loop loads_sample
     [(quiet 0)\<lparr>pin_b := True\<rparr>,
      (quiet 0)\<lparr>pin_a := True, pin_b := True\<rparr>,
      (quiet 0)\<lparr>pin_a := True, rx := Text ''{"type":"reset","position":5}''\<rparr>]
     (initial False False 0)
   = Ok \<lparr>position = PInt 5, last_state = 2, accumulated_delta = 3, last_send_time = 0,
         led = False, tx = [Sent (Encoder 0 (PInt 5))]\<rparr>\<close>
  by (simp add: loop_body_def and_then_def poll_encoder_def send_accumulated_def
      check_for_commands_def read_command_def handle_command_def send_encoder_data_eq
      quiet_def initial_def pin_state_simps ENCODER_TABLE_def py_getitem_def SEND_INTERVAL_def
      strip_def isspace_def loads_sample_def dict_get_def)

section \<open>The periodic report\<close>

text \<open>
  C5. When \<open>accumulated_delta\<close> is 0 the periodic report writes nothing and changes
  nothing, whatever the clock and \<open>last_send_time\<close> are, also when the interval has
  passed.
\<close>

theorem send_accumulated_nothing_pending:
  "accumulated_delta st = 0 \<Longrightarrow> send_accumulated e st = Ok st"
  by (simp add: send_accumulated_def)

theorem send_accumulated_nothing_pending_witness:
  "accumulated_delta (initial False False 0) = 0
   \<and> now (quiet 10) - last_send_time (initial False False 0) \<ge> SEND_INTERVAL
   \<and> send_accumulated (quiet 10) (initial False False 0) = Ok (initial False False 0)"
  using send_accumulated_nothing_pending [of "initial False False 0" "quiet 10"]
  by (simp add: initial_def quiet_def SEND_INTERVAL_def)

section \<open>Facts about the parts of the loop\<close>

lemma strip_no_leading: "dropWhile isspace (strip s) = strip s"
proof (cases "strip s = []")
  case True
  then show ?thesis by simp
next
  case False
  define t where "t = dropWhile isspace s"
  have st: "strip s = rev (dropWhile isspace (rev t))"
    by (simp add: strip_def t_def)
  have "\<exists>r. t = strip s @ r"
    by (metis st rev_append rev_rev_ident takeWhile_dropWhile_id)
  then obtain r where r: "t = strip s @ r" ..
  with False have "t \<noteq> []" and "hd (strip s) = hd t" by auto
  moreover have "\<not> isspace (hd t)"
    using \<open>t \<noteq> []\<close> unfolding t_def by (rule hd_dropWhile)
  ultimately show ?thesis
    by (simp add: dropWhile_eq_self_iff)
qed

lemma strip_idem: "strip (strip s) = strip s"
proof -
  have "strip (strip s) = rev (dropWhile isspace (rev (strip s)))"
    by (simp add: strip_def [of "strip s"] strip_no_leading)
  also have "\<dots> = strip s"
    by (simp add: strip_def)
  finally show ?thesis .
qed

lemmas run_simps =
  loop_body_def and_then_def poll_encoder_def send_accumulated_def
  check_for_commands_def read_command_def handle_command_def send_encoder_data_eq usb_write_def
  quiet_def initial_def pin_state_simps ENCODER_TABLE_def py_getitem_def SEND_INTERVAL_def
  strip_def isspace_def loads_sample_def dict_get_def globals_def

lemma handle_command_rx: "handle_command (e\<lparr>rx := x\<rparr>) cmd st = handle_command e cmd st"
  by (cases cmd) (simp_all add: handle_command_def Let_def)

lemma globals_simps: "globals (Ok st) = st" "globals (Raise x st) = st"
  by (simp_all add: globals_def)

lemma SEND_INTERVAL_pos: "0 < SEND_INTERVAL"
  by (simp add: SEND_INTERVAL_def)

lemma send_accumulated_due:
  assumes "accumulated_delta st \<noteq> 0" and "SEND_INTERVAL \<le> now e - last_send_time st"
  shows "send_accumulated e st =
           Ok (st\<lparr>tx := tx st @ (if usb_data e
                                then [(if report_write_fails e then Failed else Sent)
                                        (Encoder (accumulated_delta st) (position st))]
                                else []),
                  accumulated_delta := 0, last_send_time := now e\<rparr>)"
  using assms by (simp add: send_accumulated_def send_encoder_data_eq)

lemma send_accumulated_not_due:
  assumes "accumulated_delta st = 0 \<or> now e - last_send_time st < SEND_INTERVAL"
  shows "send_accumulated e st = Ok st"
  using assms by (auto simp add: send_accumulated_def)

lemma send_accumulated_last_send_time:
  "last_send_time st \<le> last_send_time (globals (send_accumulated e st))"
  using SEND_INTERVAL_pos
  by (simp add: send_accumulated_def send_encoder_data_eq globals_def)

lemma send_accumulated_unsent:
  assumes "last_send_time (globals (send_accumulated e st)) = last_send_time st"
  shows "send_accumulated e st = Ok st"
proof (rule send_accumulated_not_due, rule ccontr)
  assume "\<not> (accumulated_delta st = 0 \<or> now e - last_send_time st < SEND_INTERVAL)"
  then have due: "accumulated_delta st \<noteq> 0" "SEND_INTERVAL \<le> now e - last_send_time st"
    by auto
  then have "last_send_time (globals (send_accumulated e st)) = now e"
    by (simp add: send_accumulated_due globals_def)
  with assms due(2) SEND_INTERVAL_pos show False by simp
qed

lemma poll_encoder_accumulates:
  assumes "poll_encoder e st = Ok sp"
  shows "accumulated_delta sp = accumulated_delta st + sum_list (decoded (last_state st) [e])"
  using assms
  by (auto simp add: poll_encoder_def Let_def split: if_splits sum.splits)

lemma loop_body_last_send_time:
  assumes "loop_body loads e st = Ok st'"
  shows "last_send_time st \<le> last_send_time st'"
proof -
  from assms obtain sp where sp: "poll_encoder e st = Ok sp"
    and st': "st' = globals (check_for_commands loads e (globals (send_accumulated e sp)))"
    by (auto simp add: loop_body_Ok_iff)
  have "last_send_time st = last_send_time sp"
    using sp by (simp add: poll_encoder_last_send_time)
  also have "\<dots> \<le> last_send_time (globals (send_accumulated e sp))"
    by (rule send_accumulated_last_send_time)
  also have "\<dots> = last_send_time st'"
    by (simp add: st' check_for_commands_frame)
  finally show ?thesis .
qed

lemma main_loop_last_send_time:
  "main_loop loads es st = Ok st' \<Longrightarrow> last_send_time st \<le> last_send_time st'"
proof (induction es arbitrary: st)
  case Nil
  then show ?case by simp
next
  case (Cons e es)
  from Cons.prems obtain s1 where s1: "loop_body loads e st = Ok s1"
    and rest: "main_loop loads es s1 = Ok st'"
    by (auto split: result.splits)
  from loop_body_last_send_time [OF s1] Cons.IH [OF rest] show ?case by simp
qed

lemma loop_body_unsent:
  assumes "loop_body loads e st = Ok st'" and "last_send_time st' = last_send_time st"
  shows "accumulated_delta st' = accumulated_delta st + sum_list (decoded (last_state st) [e])"
proof -
  from assms(1) obtain sp where sp: "poll_encoder e st = Ok sp"
    and st': "st' = globals (check_for_commands loads e (globals (send_accumulated e sp)))"
    by (auto simp add: loop_body_Ok_iff)
  have "last_send_time (globals (send_accumulated e sp)) = last_send_time sp"
    using assms(2) sp by (simp add: st' check_for_commands_frame poll_encoder_last_send_time)
  then have "send_accumulated e sp = Ok sp"
    by (rule send_accumulated_unsent)
  then have "accumulated_delta st' = accumulated_delta sp"
    by (simp add: st' check_for_commands_frame globals_simps)
  with poll_encoder_accumulates [OF sp] show ?thesis by simp
qed

lemma main_loop_unsent:
  "main_loop loads es st = Ok st' \<Longrightarrow> last_send_time st' = last_send_time st \<Longrightarrow>
     accumulated_delta st' = accumulated_delta st + sum_list (decoded (last_state st) es)"
proof (induction es arbitrary: st)
  case Nil
  then show ?case by simp
next
  case (Cons e es)
  from Cons.prems(1) obtain s1 where s1: "loop_body loads e st = Ok s1"
    and rest: "main_loop loads es s1 = Ok st'"
    by (auto split: result.splits)
  have "last_send_time st \<le> last_send_time s1" "last_send_time s1 \<le> last_send_time st'"
    using loop_body_last_send_time [OF s1] main_loop_last_send_time [OF rest] by simp_all
  with Cons.prems(2) have eq: "last_send_time s1 = last_send_time st" "last_send_time st' = last_send_time s1"
    by simp_all
  have "accumulated_delta st' = accumulated_delta s1 + sum_list (decoded (last_state s1) es)"
    using Cons.IH [OF rest eq(2)] .
  moreover have "accumulated_delta s1 = accumulated_delta st + sum_list (decoded (last_state st) [e])"
    using loop_body_unsent [OF s1 eq(1)] .
  moreover have "last_state s1 = pin_state (pin_a e) (pin_b e)"
    using s1 by (rule loop_body_last_state)
  ultimately show ?case by (simp add: Let_def)
qed


lemma decoded_append:
  "main_loop loads es st = Ok st' \<Longrightarrow>
     decoded (last_state st) (es @ es') = decoded (last_state st) es @ decoded (last_state st') es'"
proof (induction es arbitrary: st)
  case Nil
  then show ?case by simp
next
  case (Cons e es)
  from Cons.prems obtain s1 where s1: "loop_body loads e st = Ok s1"
    and rest: "main_loop loads es s1 = Ok st'"
    by (auto split: result.splits)
  have "last_state s1 = pin_state (pin_a e) (pin_b e)"
    using s1 by (rule loop_body_last_state)
  with Cons.IH [OF rest] show ?case by (simp add: Let_def)
qed

lemma loop_body_after_report:
  assumes poll: "poll_encoder e st = Ok sp"
    and due: "accumulated_delta sp \<noteq> 0" "SEND_INTERVAL \<le> now e - last_send_time sp"
  shows "\<exists>s1. loop_body loads e st = Ok s1 \<and> accumulated_delta s1 = 0
           \<and> last_send_time s1 = now e"
proof -
  let ?s1 = "globals (check_for_commands loads e (globals (send_accumulated e sp)))"
  have "loop_body loads e st = Ok ?s1"
    using poll by (simp add: loop_body_Ok_iff)
  moreover have "accumulated_delta ?s1 = 0" "last_send_time ?s1 = now e"
    using due by (simp_all add: check_for_commands_frame send_accumulated_due globals_simps)
  ultimately show ?thesis by blast
qed

lemma next_report_carries_sum:
  assumes s1: "loop_body loads e st = Ok s1"
    and drained: "accumulated_delta s1 = 0"
    and run: "main_loop loads es s1 = Ok s2"
    and unsent: "last_send_time s2 = last_send_time s1"
    and poll: "poll_encoder e' s2 = Ok s3"
    and due: "accumulated_delta s3 \<noteq> 0" "SEND_INTERVAL \<le> now e' - last_send_time s1"
  shows "send_accumulated e' s3 =
           Ok (s3\<lparr>tx := tx s3 @ (if usb_data e'
                                then [(if report_write_fails e' then Failed else Sent)
                                        (Encoder (sum_list (decoded (pin_state (pin_a e) (pin_b e))
                                                             (es @ [e'])))
                                                 (position s3))]
                                else []),
                  accumulated_delta := 0, last_send_time := now e'\<rparr>)"
proof -
  have ls: "last_state s1 = pin_state (pin_a e) (pin_b e)"
    using s1 by (rule loop_body_last_state)
  have "accumulated_delta s2 = sum_list (decoded (last_state s1) es)"
    using main_loop_unsent [OF run unsent] drained by simp
  moreover have "accumulated_delta s3 = accumulated_delta s2 + sum_list (decoded (last_state s2) [e'])"
    using poll by (rule poll_encoder_accumulates)
  moreover have "decoded (last_state s1) (es @ [e']) =
      decoded (last_state s1) es @ decoded (last_state s2) [e']"
    using run by (rule decoded_append)
  ultimately have acc: "accumulated_delta s3 =
      sum_list (decoded (pin_state (pin_a e) (pin_b e)) (es @ [e']))"
    by (simp add: ls)
  have "last_send_time s3 = last_send_time s1"
    using poll unsent by (simp add: poll_encoder_last_send_time)
  with due have "SEND_INTERVAL \<le> now e' - last_send_time s3"
    by simp
  from send_accumulated_due [OF due(1) this] show ?thesis
    by (simp add: acc)
qed

section \<open>Commands\<close>

text \<open>
  C6. A received line is stripped of leading and trailing whitespace before anything
  else: the outcome for a line is the outcome for the stripped line. An empty line, a line
  that \<open>loads\<close> rejects, a value that is not a dict, a dict without \<open>type\<close> and a dict
  with any other \<open>type\<close> leave the state and the port untouched and raise nothing. A dict
  of type \<open>reset\<close> sets \<open>position\<close> to its \<open>position\<close> field (0 when absent) and writes
  the report; type \<open>ping\<close> writes the pong; type \<open>led\<close> sets the LED to the truth value
  of its \<open>on\<close> field (off when absent).
\<close>

theorem check_for_commands_decode:
  assumes "usb_data e" and "rx e = Text raw"
  shows "check_for_commands loads e st = check_for_commands loads (e\<lparr>rx := Text (strip raw)\<rparr>) st
    \<and> (strip raw = [] \<longrightarrow> check_for_commands loads e st = Ok st)
    \<and> (loads (strip raw) = None \<longrightarrow> check_for_commands loads e st = Ok st)
    \<and> (loads (strip raw) = Some v \<and> (\<forall>kv. v \<noteq> PDict kv) \<longrightarrow> check_for_commands loads e st = Ok st)
    \<and> (strip raw \<noteq> [] \<and> loads (strip raw) = Some (PDict kv) \<longrightarrow>
          (dict_get kv ''type'' (PStr '''') = PStr ''reset'' \<longrightarrow>
             check_for_commands loads e st =
               Ok (st\<lparr>position := dict_get kv ''position'' (PInt 0),
                      tx := tx st @ [(if reply_write_fails e then Failed else Sent)
                                       (Encoder 0 (dict_get kv ''position'' (PInt 0)))],
                      led := False\<rparr>))
        \<and> (dict_get kv ''type'' (PStr '''') = PStr ''ping'' \<longrightarrow>
             check_for_commands loads e st =
               Ok (st\<lparr>tx := tx st @ [(if reply_write_fails e then Failed else Sent)
                                       (Pong (position st))]\<rparr>))
        \<and> (dict_get kv ''type'' (PStr '''') = PStr ''led'' \<longrightarrow>
             check_for_commands loads e st =
               Ok (st\<lparr>led := truthy (dict_get kv ''on'' (PBool False))\<rparr>))
        \<and> (map_of kv ''type'' = None
            \<or> dict_get kv ''type'' (PStr '''') \<notin> {PStr ''reset'', PStr ''ping'', PStr ''led''} \<longrightarrow>
             check_for_commands loads e st = Ok st))"
  (is "?stripped \<and> ?empty \<and> ?unparsed \<and> ?no_dict \<and> ?dict")
proof -
  have 1: ?stripped
    using assms
    by (simp add: check_for_commands_def read_command_def strip_idem handle_command_rx Let_def
        split: option.splits)
  have 2: ?empty
    using assms by (simp add: check_for_commands_def read_command_def)
  have 3: ?unparsed
    using assms by (simp add: check_for_commands_def read_command_def Let_def)
  have 4: ?no_dict
    using assms
    by (cases v) (simp_all add: check_for_commands_def read_command_def handle_command_def Let_def)
  have 5: ?dict
    using assms
    by (auto simp add: check_for_commands_def read_command_def handle_command_def
        send_encoder_data_eq usb_write_def Let_def dict_get_def)
  show ?thesis
    by (rule conjI [OF 1 conjI [OF 2 conjI [OF 3 conjI [OF 4 5]]]])
qed

theorem check_for_commands_decode_witness:
  \<open>check_for_commands loads_sample
      ((quiet 0)\<lparr>rx := Text (CHR 0x20 # ''{"type":"reset","position":5}'' @ [CHR 0x0D, CHR 0x0A])\<rparr>)
      (initial False False 0)
     = Ok ((initial False False 0)\<lparr>position := PInt 5, tx := [Sent (Encoder 0 (PInt 5))]\<rparr>)
   \<and> check_for_commands loads_sample ((quiet 0)\<lparr>rx := Text ''{"type":"ping"}''\<rparr>)
        (initial False False 0)
     = Ok ((initial False False 0)\<lparr>tx := [Sent (Pong (PInt 0))]\<rparr>)
   \<and> check_for_commands loads_sample ((quiet 0)\<lparr>rx := Text ''{"type":"led","on":true}''\<rparr>)
        (initial False False 0)
     = Ok ((initial False False 0)\<lparr>led := True\<rparr>)
   \<and> check_for_commands loads_sample ((quiet 0)\<lparr>rx := Text ''{"type":"unknown"}''\<rparr>)
        (initial False False 0)
     = Ok (initial False False 0)
   \<and> check_for_commands loads_sample ((quiet 0)\<lparr>rx := Text ''[1]''\<rparr>) (initial False False 0)
     = Ok (initial False False 0)
   \<and> check_for_commands loads_sample ((quiet 0)\<lparr>rx := Text ''garbage''\<rparr>) (initial False False 0)
     = Ok (initial False False 0)
   \<and> check_for_commands loads_sample ((quiet 0)\<lparr>rx := Text [CHR 0x20, CHR 0x0A]\<rparr>)
        (initial False False 0)
     = Ok (initial False False 0)\<close>
  using
    check_for_commands_decode [of
      \<open>(quiet 0)\<lparr>rx := Text (CHR 0x20 # ''{"type":"reset","position":5}'' @ [CHR 0x0D, CHR 0x0A])\<rparr>\<close>
      \<open>CHR 0x20 # ''{"type":"reset","position":5}'' @ [CHR 0x0D, CHR 0x0A]\<close>
      loads_sample "initial False False 0" PNone
      "[(''type'', PStr ''reset''), (''position'', PInt 5)]"]
    check_for_commands_decode [of \<open>(quiet 0)\<lparr>rx := Text ''{"type":"ping"}''\<rparr>\<close>
      \<open>''{"type":"ping"}''\<close> loads_sample "initial False False 0" PNone
      "[(''type'', PStr ''ping'')]"]
    check_for_commands_decode [of \<open>(quiet 0)\<lparr>rx := Text ''{"type":"led","on":true}''\<rparr>\<close>
      \<open>''{"type":"led","on":true}''\<close> loads_sample "initial False False 0" PNone
      "[(''type'', PStr ''led''), (''on'', PBool True)]"]
    check_for_commands_decode [of \<open>(quiet 0)\<lparr>rx := Text ''{"type":"unknown"}''\<rparr>\<close>
      \<open>''{"type":"unknown"}''\<close> loads_sample "initial False False 0" PNone
      "[(''type'', PStr ''unknown'')]"]
    check_for_commands_decode [of \<open>(quiet 0)\<lparr>rx := Text ''[1]''\<rparr>\<close>
      \<open>''[1]''\<close> loads_sample "initial False False 0" "PList [PInt 1]" "[]"]
    check_for_commands_decode [of \<open>(quiet 0)\<lparr>rx := Text ''garbage''\<rparr>\<close>
      \<open>''garbage''\<close> loads_sample "initial False False 0" PNone "[]"]
    check_for_commands_decode [of \<open>(quiet 0)\<lparr>rx := Text [CHR 0x20, CHR 0x0A]\<rparr>\<close>
      \<open>[CHR 0x20, CHR 0x0A]\<close> loads_sample "initial False False 0" PNone "[]"]
  by (auto simp add: quiet_def initial_def strip_def isspace_def loads_sample_def dict_get_def
      pin_state_simps)

text \<open>
  C7. In the pass in which the line arrives, a \<open>reset\<close> command makes the program write
  the report with delta 0 and the new position, and a \<open>ping\<close> command makes it write the
  pong with the current position. No condition on the clock, on \<open>last_send_time\<close> or on
  \<open>accumulated_delta\<close> is needed: the reply does not go through the periodic report.
\<close>

theorem command_replies_immediate:
  assumes "usb_data e" and "rx e = Text raw" and "strip raw \<noteq> []"
    and "loads (strip raw) = Some (PDict kv)"
  shows "(dict_get kv ''type'' (PStr '''') = PStr ''reset'' \<longrightarrow>
           tx (globals (check_for_commands loads e st)) =
             tx st @ [(if reply_write_fails e then Failed else Sent)
                        (Encoder 0 (dict_get kv ''position'' (PInt 0)))]
           \<and> position (globals (check_for_commands loads e st)) = dict_get kv ''position'' (PInt 0))
       \<and> (dict_get kv ''type'' (PStr '''') = PStr ''ping'' \<longrightarrow>
           tx (globals (check_for_commands loads e st)) =
             tx st @ [(if reply_write_fails e then Failed else Sent) (Pong (position st))])"
  using assms
  by (simp add: check_for_commands_def read_command_def handle_command_def
      send_encoder_data_eq usb_write_def globals_def Let_def)

theorem command_replies_immediate_witness:
  \<open>tx (globals (check_for_commands loads_sample
         ((quiet 0)\<lparr>rx := Text ''{"type":"reset","position":5}''\<rparr>)
         ((initial False False 0)\<lparr>accumulated_delta := 2\<rparr>))) = [Sent (Encoder 0 (PInt 5))]
   \<and> tx (globals (check_for_commands loads_sample
         ((quiet 0)\<lparr>rx := Text ''{"type":"ping"}'', reply_write_fails := True\<rparr>)
         (initial False False 0))) = [Failed (Pong (PInt 0))]\<close>
  using
    command_replies_immediate [of \<open>(quiet 0)\<lparr>rx := Text ''{"type":"reset","position":5}''\<rparr>\<close>
      \<open>''{"type":"reset","position":5}''\<close> loads_sample
      "[(''type'', PStr ''reset''), (''position'', PInt 5)]"
      "(initial False False 0)\<lparr>accumulated_delta := 2\<rparr>"]
    command_replies_immediate [of \<open>(quiet 0)\<lparr>rx := Text ''{"type":"ping"}'', reply_write_fails := True\<rparr>\<close>
      \<open>''{"type":"ping"}''\<close> loads_sample
      "[(''type'', PStr ''ping'')]" "initial False False 0"]
  by (simp add: quiet_def initial_def strip_def isspace_def loads_sample_def dict_get_def)

text \<open>
  C10. No command changes \<open>last_send_time\<close>, whether the handler returns or raises;
  \<open>ping\<close> changes neither \<open>position\<close> nor \<open>accumulated_delta\<close>. So a reply does not
  restart the interval: in the run below the pong is written in the pass at time 1 and
  the periodic report in the pass at time 1.01, less than \<open>SEND_INTERVAL\<close> later.
\<close>

theorem commands_keep_last_send_time:
  \<open>last_send_time (globals (handle_command e cmd st)) = last_send_time st
   \<and> last_send_time (globals (check_for_commands loads e st)) = last_send_time st
   \<and> (dict_get kv ''type'' (PStr '''') = PStr ''ping'' \<longrightarrow>
        position (globals (handle_command e (PDict kv) st)) = position st
        \<and> accumulated_delta (globals (handle_command e (PDict kv) st)) = accumulated_delta st)
   \<and> main_loop loads_sample
        [(quiet 1)\<lparr>rx := Text ''{"type":"ping"}''\<rparr>, (quiet (101 / 100))\<lparr>pin_b := True\<rparr>]
        (initial False False 0)
      = Ok \<lparr>position = PInt 1, last_state = 1, accumulated_delta = 0,
            last_send_time = 101 / 100, led = True,
            tx = [Sent (Pong (PInt 0)), Sent (Encoder 1 (PInt 1))]\<rparr>
   \<and> now ((quiet (101 / 100))\<lparr>pin_b := True\<rparr>) - now ((quiet 1)\<lparr>rx := Text ''{"type":"ping"}''\<rparr>)
        < SEND_INTERVAL\<close>
proof -
  have ping: "dict_get kv ''type'' (PStr '''') = PStr ''ping'' \<Longrightarrow>
      position (globals (handle_command e (PDict kv) st)) = position st"
    by (simp add: handle_command_def usb_write_def globals_def)
  have run: \<open>main_loop loads_sample
        [(quiet 1)\<lparr>rx := Text ''{"type":"ping"}''\<rparr>, (quiet (101 / 100))\<lparr>pin_b := True\<rparr>]
        (initial False False 0)
      = Ok \<lparr>position = PInt 1, last_state = 1, accumulated_delta = 0,
            last_send_time = 101 / 100, led = True,
            tx = [Sent (Pong (PInt 0)), Sent (Encoder 1 (PInt 1))]\<rparr>\<close>
    by (simp add: run_simps)
  show ?thesis
    using ping run
    by (simp add: handle_command_frame check_for_commands_frame quiet_def SEND_INTERVAL_def)
qed

theorem commands_keep_last_send_time_witness:
  "dict_get [(''type'', PStr ''ping'')] ''type'' (PStr '''') = PStr ''ping''
   \<and> position (globals (handle_command (quiet 0) (PDict [(''type'', PStr ''ping'')])
        ((initial False False 0)\<lparr>accumulated_delta := 2\<rparr>))) = PInt 0
   \<and> accumulated_delta (globals (handle_command (quiet 0) (PDict [(''type'', PStr ''ping'')])
        ((initial False False 0)\<lparr>accumulated_delta := 2\<rparr>))) = 2"
  using commands_keep_last_send_time [of "quiet 0" "PDict [(''type'', PStr ''ping'')]"
      "(initial False False 0)\<lparr>accumulated_delta := 2\<rparr>" loads_sample "[(''type'', PStr ''ping'')]"]
  by (simp add: dict_get_def initial_def)

text \<open>
  C3 fails on the code. The line \<^verbatim>\<open>{"type":"reset","position":"x"}\<close> is accepted: it
  stores the string in \<open>position\<close> and is answered. The next pass that decodes a step
  executes \<^verbatim>\<open>position += delta\<close> outside every \<^verbatim>\<open>try\<close>, which raises
  \<^verbatim>\<open>TypeError\<close> and ends the main loop.
\<close>

theorem reset_text_position_ends_loop:
  \<open>main_loop loads_sample
     [(quiet 0)\<lparr>rx := Text ''{"type":"reset","position":"x"}''\<rparr>, (quiet 1)\<lparr>pin_b := True\<rparr>]
     (initial False False 0)
   = Raise TypeError
       \<lparr>position = PStr ''x'', last_state = 0, accumulated_delta = 0, last_send_time = 0,
        led = False, tx = [Sent (Encoder 0 (PStr ''x''))]\<rparr>\<close>
  by (simp add: run_simps)

section \<open>The periodic report over several passes\<close>



text \<open>
  C8. When the write of a periodic report raises, \<open>send_encoder_data\<close> returns
  normally: the message is lost, \<open>accumulated_delta\<close> is set to 0 and \<open>last_send_time\<close>
  to the clock as after a successful write, and the pass completes. The write is not
  repeated: as long as no other report has been written since, the next one carries the
  sum of the deltas decoded after the failed attempt only.
\<close>

theorem failed_report_is_dropped:
  assumes poll: "poll_encoder e st = Ok sp"
    and due: "accumulated_delta sp \<noteq> 0" "SEND_INTERVAL \<le> now e - last_send_time sp"
    and fail: "usb_data e" "report_write_fails e"
  shows "send_accumulated e sp =
           Ok (sp\<lparr>tx := tx sp @ [Failed (Encoder (accumulated_delta sp) (position sp))],
                  accumulated_delta := 0, last_send_time := now e\<rparr>)
       \<and> (\<exists>s1. loop_body loads e st = Ok s1 \<and> accumulated_delta s1 = 0
                \<and> last_send_time s1 = now e)
       \<and> (\<forall>es s2 e' s3.
             main_loop loads (e # es) st = Ok s2 \<and> last_send_time s2 = now e
             \<and> poll_encoder e' s2 = Ok s3 \<and> accumulated_delta s3 \<noteq> 0
             \<and> SEND_INTERVAL \<le> now e' - now e \<longrightarrow>
               send_accumulated e' s3 =
                 Ok (s3\<lparr>tx := tx s3 @ (if usb_data e'
                                      then [(if report_write_fails e' then Failed else Sent)
                                              (Encoder (sum_list (decoded (pin_state (pin_a e) (pin_b e))
                                                                   (es @ [e'])))
                                                       (position s3))]
                                      else []),
                        accumulated_delta := 0, last_send_time := now e'\<rparr>))"
  (is "?dropped \<and> ?continues \<and> ?next")
proof -
  from loop_body_after_report [OF poll due, of loads] obtain s1
    where s1: "loop_body loads e st = Ok s1" and drained: "accumulated_delta s1 = 0"
      and sent: "last_send_time s1 = now e"
    by blast
  have 1: ?dropped
    using send_accumulated_due [OF due] fail by simp
  have 2: ?continues
    using s1 drained sent by blast
  have 3: ?next
  proof (intro allI impI)
    fix es s2 e' s3
    assume a: "main_loop loads (e # es) st = Ok s2 \<and> last_send_time s2 = now e
        \<and> poll_encoder e' s2 = Ok s3 \<and> accumulated_delta s3 \<noteq> 0
        \<and> SEND_INTERVAL \<le> now e' - now e"
    with s1 have rest: "main_loop loads es s1 = Ok s2"
      by simp
    from a have "last_send_time s2 = last_send_time s1" "poll_encoder e' s2 = Ok s3"
      "accumulated_delta s3 \<noteq> 0" "SEND_INTERVAL \<le> now e' - last_send_time s1"
      by (simp_all add: sent)
    from next_report_carries_sum [OF s1 drained rest this]
    show "send_accumulated e' s3 =
            Ok (s3\<lparr>tx := tx s3 @ (if usb_data e'
                                 then [(if report_write_fails e' then Failed else Sent)
                                         (Encoder (sum_list (decoded (pin_state (pin_a e) (pin_b e))
                                                              (es @ [e'])))
                                                  (position s3))]
                                 else []),
                   accumulated_delta := 0, last_send_time := now e'\<rparr>)" .
  qed
  show ?thesis
    by (rule conjI [OF 1 conjI [OF 2 3]])
qed

theorem failed_report_is_dropped_witness:
  "poll_encoder ((quiet 1)\<lparr>pin_b := True, report_write_fails := True\<rparr>) (initial False False 0)
     = Ok \<lparr>position = PInt 1, last_state = 1, accumulated_delta = 1, last_send_time = 0,
           led = True, tx = []\<rparr>
   \<and> send_accumulated ((quiet 1)\<lparr>pin_b := True, report_write_fails := True\<rparr>)
        \<lparr>position = PInt 1, last_state = 1, accumulated_delta = 1, last_send_time = 0,
         led = True, tx = []\<rparr>
     = Ok \<lparr>position = PInt 1, last_state = 1, accumulated_delta = 0, last_send_time = 1,
           led = True, tx = [Failed (Encoder 1 (PInt 1))]\<rparr>
   \<and> main_loop loads_sample
        [(quiet 1)\<lparr>pin_b := True, report_write_fails := True\<rparr>,
         (quiet (101 / 100))\<lparr>pin_a := True, pin_b := True\<rparr>]
        (initial False False 0)
     = Ok \<lparr>position = PInt 2, last_state = 3, accumulated_delta = 1, last_send_time = 1,
           led = True, tx = [Failed (Encoder 1 (PInt 1))]\<rparr>
   \<and> send_accumulated ((quiet 2)\<lparr>pin_a := True, pin_b := True\<rparr>)
        \<lparr>position = PInt 2, last_state = 3, accumulated_delta = 1, last_send_time = 1,
         led = False, tx = [Failed (Encoder 1 (PInt 1))]\<rparr>
     = Ok \<lparr>position = PInt 2, last_state = 3, accumulated_delta = 0, last_send_time = 2,
           led = False, tx = [Failed (Encoder 1 (PInt 1)), Sent (Encoder 1 (PInt 2))]\<rparr>"
  (is "?poll \<and> ?dropped \<and> ?run \<and> ?next")
proof -
  let ?e = "(quiet 1)\<lparr>pin_b := True, report_write_fails := True\<rparr>"
  let ?e1 = "(quiet (101 / 100))\<lparr>pin_a := True, pin_b := True\<rparr>"
  let ?e2 = "(quiet 2)\<lparr>pin_a := True, pin_b := True\<rparr>"
  let ?sp = "\<lparr>position = PInt 1, last_state = 1, accumulated_delta = 1, last_send_time = 0,
           led = True, tx = []\<rparr>"
  let ?s2 = "\<lparr>position = PInt 2, last_state = 3, accumulated_delta = 1, last_send_time = 1,
           led = True, tx = [Failed (Encoder 1 (PInt 1))]\<rparr>"
  let ?s3 = "?s2\<lparr>led := False\<rparr>"
  have poll: "poll_encoder ?e (initial False False 0) = Ok ?sp"
    by (simp add: run_simps)
  have due: "accumulated_delta ?sp \<noteq> 0" "SEND_INTERVAL \<le> now ?e - last_send_time ?sp"
    by (simp_all add: quiet_def SEND_INTERVAL_def)
  have fail: "usb_data ?e" "report_write_fails ?e"
    by (simp_all add: quiet_def)
  note T = failed_report_is_dropped [OF poll due fail, of loads_sample]
  have run1: "main_loop loads_sample [?e, ?e1] (initial False False 0) = Ok ?s2"
    by (simp add: run_simps)
  have p2: "poll_encoder ?e2 ?s2 = Ok ?s3"
    by (simp add: run_simps)
  have d: "sum_list (decoded (pin_state (pin_a ?e) (pin_b ?e)) ([?e1] @ [?e2])) = 1"
    by (simp add: quiet_def pin_state_simps ENCODER_TABLE_def py_getitem_def)
  have 2: ?dropped
    using T [THEN conjunct1] by (simp add: quiet_def)
  have 4: ?next
    using T [THEN conjunct2, THEN conjunct2, rule_format, of "[?e1]" ?s2 ?e2 ?s3] run1 p2 d
    by (simp add: quiet_def SEND_INTERVAL_def)
  from poll 2 run1 4 show ?thesis
    by simp
qed

end
